theory Spec2Isabelle
  imports Main "HOL-Library.AList" "HOL-Library.Sublist"
begin

section \<open>The library management system of \<^verbatim>\<open>src/main.py\<close>\<close>

text \<open>
  The program has three classes, \<^verbatim>\<open>Book\<close>, \<^verbatim>\<open>User\<close> and \<^verbatim>\<open>Library\<close>. Books and users
  are mutable objects that refer to each other: a book's \<^verbatim>\<open>borrower\<close> is a reference to
  a user object, and a user's \<^verbatim>\<open>borrowed_books\<close> is a list of references to book
  objects. Neither class defines \<^verbatim>\<open>__eq__\<close>, so \<^verbatim>\<open>book in self.borrowed_books\<close> and
  \<^verbatim>\<open>self.borrowed_books.remove(book)\<close> compare object identities. The model therefore
  keeps an explicit object store: every \<^verbatim>\<open>Book(...)\<close> and \<^verbatim>\<open>User(...)\<close> call allocates
  the next address of a store, a reference is an address, and an attribute
  assignment is an update of the store at that address. Objects are never freed
  (\<^verbatim>\<open>del self.books[isbn]\<close> only removes the dictionary entry).

  A store is a list and an address an index into it. A reference that the program
  holds always points to an object, so the states of the program are those whose
  addresses are below the length of their store; \<open>consistent\<close> below says so, and every
  state that the operations reach is consistent.

  Python strings are modelled as \<^typ>\<open>string\<close>; a non-ASCII literal stands for its
  UTF-8 bytes. The \<^verbatim>\<open>print\<close> calls write to the console only and are not modelled.
\<close>

subsection \<open>Data\<close>

type_synonym book_ref = nat
type_synonym user_ref = nat

record book =
  title :: string
  author :: string
  isbn :: string
  is_borrowed :: bool
  borrower :: "user_ref option"

record user =
  name :: string
  card_id :: string
  borrowed_books :: "book_ref list"
  max_borrow_limit :: int

text \<open>The dictionary that \<^verbatim>\<open>Library.borrow_book\<close> appends to \<^verbatim>\<open>borrow_records\<close>.\<close>

record borrow_record =
  user_name :: string
  user_card_id :: string
  book_title :: string
  book_isbn :: string
  borrow_time :: string

text \<open>
  A Python \<^verbatim>\<open>dict\<close> keeps its keys in insertion order, so \<^verbatim>\<open>books\<close> and \<^verbatim>\<open>users\<close> are
  association lists: \<^verbatim>\<open>k in d\<close> is \<^term>\<open>map_of d k \<noteq> None\<close>, \<^verbatim>\<open>d[k] = v\<close> is
  \<^term>\<open>AList.update k v d\<close> (in place for a key that is present, at the end for a new
  key) and \<^verbatim>\<open>del d[k]\<close> is \<^term>\<open>AList.delete k d\<close>.
\<close>

record library =
  lib_name :: string
  books :: "(string \<times> book_ref) list"
  users :: "(string \<times> user_ref) list"
  borrow_records :: "borrow_record list"

text \<open>The program state: the two object stores and the one \<^verbatim>\<open>Library\<close> object.\<close>

record pystate =
  book_heap :: "book list"
  user_heap :: "user list"
  lib :: library

subsection \<open>class Book\<close>

definition Book_init :: "string \<Rightarrow> string \<Rightarrow> string \<Rightarrow> book" where
  "Book_init t a i =
     \<lparr>title = t, author = a, isbn = i, is_borrowed = False, borrower = None\<rparr>"

definition Book_borrow :: "user_ref \<Rightarrow> book \<Rightarrow> bool \<times> book" where
  "Book_borrow u b =
     (if \<not> is_borrowed b then (True, b\<lparr>is_borrowed := True, borrower := Some u\<rparr>)
      else (False, b))"

definition Book_return_book :: "book \<Rightarrow> bool \<times> book" where
  "Book_return_book b =
     (if is_borrowed b then (True, b\<lparr>is_borrowed := False, borrower := None\<rparr>)
      else (False, b))"

definition Book_is_available :: "book \<Rightarrow> bool" where
  "Book_is_available b = (\<not> is_borrowed b)"

subsection \<open>class User\<close>

definition User_init :: "string \<Rightarrow> string \<Rightarrow> user" where
  "User_init n c = \<lparr>name = n, card_id = c, borrowed_books = [], max_borrow_limit = 5\<rparr>"

definition User_can_borrow_more :: "user \<Rightarrow> bool" where
  "User_can_borrow_more u = (int (length (borrowed_books u)) < max_borrow_limit u)"

text \<open>
  \<^verbatim>\<open>User.borrow_book(self, book)\<close>: \<open>ur\<close> is the address of \<^verbatim>\<open>self\<close> and \<open>br\<close> the address
  of \<^verbatim>\<open>book\<close>.
\<close>

definition User_borrow_book :: "user_ref \<Rightarrow> book_ref \<Rightarrow> pystate \<Rightarrow> bool \<times> pystate" where
  "User_borrow_book ur br s =
     (if \<not> User_can_borrow_more (user_heap s ! ur) then (False, s)
      else case Book_borrow ur (book_heap s ! br) of
        (True, b') \<Rightarrow>
          (let s1 = s\<lparr>book_heap := (book_heap s)[br := b']\<rparr>;
               u = user_heap s1 ! ur
           in (True, s1\<lparr>user_heap :=
                 (user_heap s1)[ur := u\<lparr>borrowed_books := borrowed_books u @ [br]\<rparr>]\<rparr>))
      | (False, b') \<Rightarrow> (False, s))"

text \<open>
  \<^verbatim>\<open>User.return_book(self, book)\<close> returns \<^verbatim>\<open>True\<close>, \<^verbatim>\<open>False\<close> or, when the book is in
  \<^verbatim>\<open>borrowed_books\<close> but \<^verbatim>\<open>book.return_book()\<close> fails, falls off the end of the function
  and returns \<^verbatim>\<open>None\<close>. The result is a \<^typ>\<open>bool option\<close> with \<^term>\<open>None\<close> for Python's
  \<^verbatim>\<open>None\<close>.
\<close>

definition User_return_book :: "user_ref \<Rightarrow> book_ref \<Rightarrow> pystate \<Rightarrow> bool option \<times> pystate" where
  "User_return_book ur br s =
     (if br \<in> set (borrowed_books (user_heap s ! ur)) then
        (case Book_return_book (book_heap s ! br) of
          (True, b') \<Rightarrow>
            (let s1 = s\<lparr>book_heap := (book_heap s)[br := b']\<rparr>;
                 u = user_heap s1 ! ur
             in (Some True, s1\<lparr>user_heap :=
                   (user_heap s1)[ur := u\<lparr>borrowed_books := remove1 br (borrowed_books u)\<rparr>]\<rparr>))
        | (False, b') \<Rightarrow> (None, s))
      else (Some False, s))"

subsection \<open>class Library\<close>

definition Library_init :: "string \<Rightarrow> library" where
  "Library_init n = \<lparr>lib_name = n, books = [], users = [], borrow_records = []\<rparr>"

text \<open>The state after \<^verbatim>\<open>library = Library(n)\<close> in a program that has no other object.\<close>

definition fresh :: "string \<Rightarrow> pystate" where
  "fresh n = \<lparr>book_heap = [], user_heap = [], lib = Library_init n\<rparr>"

definition add_book :: "string \<Rightarrow> string \<Rightarrow> string \<Rightarrow> pystate \<Rightarrow> bool \<times> pystate" where
  "add_book t a i s =
     (if map_of (books (lib s)) i \<noteq> None then (False, s)
      else (True, s\<lparr>book_heap := book_heap s @ [Book_init t a i],
                     lib := (lib s)\<lparr>books :=
                       AList.update i (length (book_heap s)) (books (lib s))\<rparr>\<rparr>))"

definition remove_book :: "string \<Rightarrow> pystate \<Rightarrow> bool \<times> pystate" where
  "remove_book i s =
     (case map_of (books (lib s)) i of
        None \<Rightarrow> (False, s)
      | Some br \<Rightarrow>
          if is_borrowed (book_heap s ! br) then (False, s)
          else (True, s\<lparr>lib := (lib s)\<lparr>books := AList.delete i (books (lib s))\<rparr>\<rparr>))"

definition register_user :: "string \<Rightarrow> string \<Rightarrow> pystate \<Rightarrow> bool \<times> pystate" where
  "register_user n c s =
     (if map_of (users (lib s)) c \<noteq> None then (False, s)
      else (True, s\<lparr>user_heap := user_heap s @ [User_init n c],
                     lib := (lib s)\<lparr>users :=
                       AList.update c (length (user_heap s)) (users (lib s))\<rparr>\<rparr>))"

text \<open>
  The literal of \<^verbatim>\<open>'borrow_time'\<close> in the source, four CJK characters, as its UTF-8
  bytes.
\<close>

definition placeholder_time :: string where
  "placeholder_time =
     [CHR 0xE5, CHR 0xBD, CHR 0x93, CHR 0xE5, CHR 0x89, CHR 0x8D,
      CHR 0xE6, CHR 0x97, CHR 0xB6, CHR 0xE9, CHR 0x97, CHR 0xB4]"

definition borrow_book :: "string \<Rightarrow> string \<Rightarrow> pystate \<Rightarrow> bool \<times> pystate" where
  "borrow_book c i s =
     (case map_of (users (lib s)) c of
        None \<Rightarrow> (False, s)
      | Some ur \<Rightarrow>
         (case map_of (books (lib s)) i of
            None \<Rightarrow> (False, s)
          | Some br \<Rightarrow>
             (case User_borrow_book ur br s of
                (True, s1) \<Rightarrow>
                  (True, s1\<lparr>lib := (lib s1)\<lparr>borrow_records := borrow_records (lib s1) @
                     [\<lparr>user_name = name (user_heap s1 ! ur), user_card_id = c,
                       book_title = title (book_heap s1 ! br), book_isbn = i,
                       borrow_time = placeholder_time\<rparr>]\<rparr>\<rparr>)
              | (False, s1) \<Rightarrow> (False, s1))))"

definition return_book :: "string \<Rightarrow> string \<Rightarrow> pystate \<Rightarrow> bool option \<times> pystate" where
  "return_book c i s =
     (case map_of (users (lib s)) c of
        None \<Rightarrow> (Some False, s)
      | Some ur \<Rightarrow>
         (case map_of (books (lib s)) i of
            None \<Rightarrow> (Some False, s)
          | Some br \<Rightarrow> User_return_book ur br s))"

text \<open>
  \<^verbatim>\<open>check_book_availability\<close> returns \<^verbatim>\<open>None\<close> for an ISBN that is not a key of
  \<^verbatim>\<open>books\<close> and \<^verbatim>\<open>book.is_available()\<close> otherwise; it changes nothing.
\<close>

definition check_book_availability :: "string \<Rightarrow> pystate \<Rightarrow> bool option" where
  "check_book_availability i s =
     (case map_of (books (lib s)) i of
        None \<Rightarrow> None
      | Some br \<Rightarrow> Some (Book_is_available (book_heap s ! br)))"

text \<open>
  \<^verbatim>\<open>x in y\<close> on two strings: \<open>x\<close> occurs in \<open>y\<close> as a contiguous block.
\<close>

fun str_in :: "string \<Rightarrow> string \<Rightarrow> bool" where
  "str_in x [] = (x = [])"
| "str_in x (c # cs) = (prefix x (c # cs) \<or> str_in x cs)"



subsection \<open>Sequences of operations\<close>

text \<open>
  The state-changing public methods of \<^verbatim>\<open>Library\<close>. The remaining ones
  (\<^verbatim>\<open>check_book_availability\<close>, \<^verbatim>\<open>search_book\<close> and the \<^verbatim>\<open>display_\<close> methods) only read.
\<close>

datatype operation =
    AddBook string string string
  | RemoveBook string
  | RegisterUser string string
  | BorrowBook string string
  | ReturnBook string string

fun exec :: "operation \<Rightarrow> pystate \<Rightarrow> pystate" where
  "exec (AddBook t a i) s = snd (add_book t a i s)"
| "exec (RemoveBook i) s = snd (remove_book i s)"
| "exec (RegisterUser n c) s = snd (register_user n c s)"
| "exec (BorrowBook c i) s = snd (borrow_book c i s)"
| "exec (ReturnBook c i) s = snd (return_book c i s)"

fun run :: "operation list \<Rightarrow> pystate \<Rightarrow> pystate" where
  "run [] s = s"
| "run (x # xs) s = run xs (exec x s)"

subsection \<open>The search as a filter of the catalog\<close>



subsection \<open>\<^verbatim>\<open>str.lower\<close> on a fragment of Unicode\<close>













subsection \<open>Consistent states\<close>

text \<open>
  What every reachable state satisfies: a book is flagged as borrowed exactly when it
  has a borrower; a user has the limit 5, holds at most five books, holds no book
  twice, and every book the user holds exists, is flagged as borrowed and names this
  user as its borrower; the dictionaries refer to objects of the stores, and a book is
  filed under its own ISBN.
\<close>

definition book_ok :: "book \<Rightarrow> bool" where
  "book_ok b \<longleftrightarrow> (is_borrowed b \<longleftrightarrow> borrower b \<noteq> None)"

definition user_ok :: "pystate \<Rightarrow> user_ref \<Rightarrow> bool" where
  "user_ok s ur \<longleftrightarrow>
     max_borrow_limit (user_heap s ! ur) = 5 \<and>
     length (borrowed_books (user_heap s ! ur)) \<le> 5 \<and>
     distinct (borrowed_books (user_heap s ! ur)) \<and>
     (\<forall>br \<in> set (borrowed_books (user_heap s ! ur)).
        br < length (book_heap s) \<and> is_borrowed (book_heap s ! br) \<and>
        borrower (book_heap s ! br) = Some ur)"

definition consistent :: "pystate \<Rightarrow> bool" where
  "consistent s \<longleftrightarrow>
     (\<forall>(k, br) \<in> set (books (lib s)).
        br < length (book_heap s) \<and> isbn (book_heap s ! br) = k) \<and>
     (\<forall>(k, ur) \<in> set (users (lib s)). ur < length (user_heap s)) \<and>
     (\<forall>ur \<in> {..<length (user_heap s)}. user_ok s ur) \<and>
     (\<forall>b \<in> set (book_heap s). book_ok b)"

subsection \<open>Concrete runs\<close>

text \<open>
  The scenario of the specification: two books, two patrons, and the first patron
  borrows the first book. \<open>demo_start\<close> is the state before the loan and \<open>demo_lent\<close>
  the state after it.
\<close>

definition demo_setup :: "operation list" where
  "demo_setup =
     [AddBook ''The Art'' ''Knuth'' ''A1'', AddBook ''Logic'' ''Smullyan'' ''A2'',
      RegisterUser ''Ann'' ''P1'', RegisterUser ''Bob'' ''P2'']"

definition demo_ops :: "operation list" where
  "demo_ops = demo_setup @ [BorrowBook ''P1'' ''A1'']"

definition demo_start :: pystate where
  "demo_start =
     \<lparr>book_heap =
        [\<lparr>title = ''The Art'', author = ''Knuth'', isbn = ''A1'',
          is_borrowed = False, borrower = None\<rparr>,
         \<lparr>title = ''Logic'', author = ''Smullyan'', isbn = ''A2'',
          is_borrowed = False, borrower = None\<rparr>],
      user_heap =
        [\<lparr>name = ''Ann'', card_id = ''P1'', borrowed_books = [], max_borrow_limit = 5\<rparr>,
         \<lparr>name = ''Bob'', card_id = ''P2'', borrowed_books = [], max_borrow_limit = 5\<rparr>],
      lib = \<lparr>lib_name = ''L'', books = [(''A1'', 0), (''A2'', 1)],
              users = [(''P1'', 0), (''P2'', 1)], borrow_records = []\<rparr>\<rparr>"

definition demo_lent :: pystate where
  "demo_lent =
     \<lparr>book_heap =
        [\<lparr>title = ''The Art'', author = ''Knuth'', isbn = ''A1'',
          is_borrowed = True, borrower = Some 0\<rparr>,
         \<lparr>title = ''Logic'', author = ''Smullyan'', isbn = ''A2'',
          is_borrowed = False, borrower = None\<rparr>],
      user_heap =
        [\<lparr>name = ''Ann'', card_id = ''P1'', borrowed_books = [0], max_borrow_limit = 5\<rparr>,
         \<lparr>name = ''Bob'', card_id = ''P2'', borrowed_books = [], max_borrow_limit = 5\<rparr>],
      lib = \<lparr>lib_name = ''L'', books = [(''A1'', 0), (''A2'', 1)],
              users = [(''P1'', 0), (''P2'', 1)],
              borrow_records =
                [\<lparr>user_name = ''Ann'', user_card_id = ''P1'', book_title = ''The Art'',
                  book_isbn = ''A1'', borrow_time = placeholder_time\<rparr>]\<rparr>\<rparr>"

text \<open>
  A state that no sequence of operations reaches: the first patron still lists the
  first book, but the book is not flagged as borrowed.
\<close>

definition demo_stale :: pystate where
  "demo_stale =
     demo_lent\<lparr>book_heap :=
       (book_heap demo_lent)[0 := (book_heap demo_lent ! 0)
          \<lparr>is_borrowed := False, borrower := None\<rparr>]\<rparr>"

text \<open>One patron, six books, and an attempt to borrow all six.\<close>

definition limit_ops :: "operation list" where
  "limit_ops =
     [RegisterUser ''Ann'' ''P1'',
      AddBook ''T1'' ''X'' ''B1'', AddBook ''T2'' ''X'' ''B2'', AddBook ''T3'' ''X'' ''B3'',
      AddBook ''T4'' ''X'' ''B4'', AddBook ''T5'' ''X'' ''B5'', AddBook ''T6'' ''X'' ''B6'',
      BorrowBook ''P1'' ''B1'', BorrowBook ''P1'' ''B2'', BorrowBook ''P1'' ''B3'',
      BorrowBook ''P1'' ''B4'', BorrowBook ''P1'' ''B5'', BorrowBook ''P1'' ''B6'']"


section \<open>Properties\<close>

subsection \<open>Dictionaries and substrings\<close>

lemma update_absent: "map_of al k = None \<Longrightarrow> AList.update k v al = al @ [(k, v)]"
  by (induction al) (auto split: if_splits)

lemma set_delete_subset: "set (AList.delete k al) \<subseteq> set al"
  by (auto simp: AList.delete_eq)



lemma str_in_Nil: "str_in [] y"
  by (cases y) simp_all

text \<open>
  Insertion order: a successful \<^verbatim>\<open>add_book\<close> puts the new book last, and
  \<^verbatim>\<open>remove_book\<close> keeps the other books in their order.
\<close>

lemma add_book_order:
  "fst (add_book t a i s) \<Longrightarrow>
   books (lib (snd (add_book t a i s))) = books (lib s) @ [(i, length (book_heap s))]"
  by (auto simp: add_book_def update_absent split: if_splits)

subsection \<open>Every reachable state is consistent\<close>

lemma consistent_fresh: "consistent (fresh n)"
  by (simp add: consistent_def fresh_def Library_init_def)

lemma consistent_add_book: "consistent s \<Longrightarrow> consistent (snd (add_book t a i s))"
  unfolding consistent_def add_book_def user_ok_def
  by (auto simp: update_absent nth_append Book_init_def book_ok_def less_Suc_eq)

lemma consistent_remove_book: "consistent s \<Longrightarrow> consistent (snd (remove_book i s))"
  unfolding consistent_def remove_book_def user_ok_def
  using set_delete_subset[of i "books (lib s)"]
  by (auto split: option.splits)

lemma consistent_register_user: "consistent s \<Longrightarrow> consistent (snd (register_user n c s))"
  unfolding consistent_def register_user_def user_ok_def
  by (auto simp: update_absent nth_append User_init_def less_Suc_eq)

lemma consistent_User_borrow_book:
  assumes c: "consistent s"
    and ur: "ur < length (user_heap s)" and br: "br < length (book_heap s)"
  shows "consistent (snd (User_borrow_book ur br s))"
proof (cases "User_can_borrow_more (user_heap s ! ur) \<and> \<not> is_borrowed (book_heap s ! br)")
  case False
  then show ?thesis using c
    by (auto simp: User_borrow_book_def Book_borrow_def)
next
  case True
  define B where "B = (book_heap s ! br)\<lparr>is_borrowed := True, borrower := Some ur\<rparr>"
  define U where
    "U = (user_heap s ! ur)\<lparr>borrowed_books := borrowed_books (user_heap s ! ur) @ [br]\<rparr>"
  define s' where
    "s' = s\<lparr>book_heap := (book_heap s)[br := B], user_heap := (user_heap s)[ur := U]\<rparr>"
  have eq: "snd (User_borrow_book ur br s) = s'"
    using True by (simp add: User_borrow_book_def Book_borrow_def s'_def B_def U_def Let_def)
  have uok: "\<And>u. u < length (user_heap s) \<Longrightarrow> user_ok s u"
    using c by (simp add: consistent_def)
  have held: "\<And>u b. u < length (user_heap s) \<Longrightarrow>
      b \<in> set (borrowed_books (user_heap s ! u)) \<Longrightarrow> b \<noteq> br"
    using uok True by (auto simp: user_ok_def)
  have lim: "length (borrowed_books (user_heap s ! ur)) < 5"
    using uok[OF ur] True by (simp add: user_ok_def User_can_borrow_more_def)
  have 1: "\<forall>(k, b) \<in> set (books (lib s')).
      b < length (book_heap s') \<and> isbn (book_heap s' ! b) = k"
    using c br by (auto simp: consistent_def s'_def B_def nth_list_update)
  have 2: "\<forall>(k, u) \<in> set (users (lib s')). u < length (user_heap s')"
    using c by (auto simp: consistent_def s'_def)
  have 3: "user_ok s' u" if u: "u < length (user_heap s')" for u
  proof (cases "u = ur")
    case True
    then show ?thesis
      using uok[OF ur] held[OF ur] lim ur br
      by (auto simp: user_ok_def s'_def U_def B_def nth_list_update)
  next
    case False
    then show ?thesis
      using uok[of u] held[of u] u br
      by (auto simp: user_ok_def s'_def nth_list_update)
  qed
  have 4: "\<forall>b \<in> set (book_heap s'). book_ok b"
    using c set_update_subset_insert[of "book_heap s" br B]
    by (auto simp: consistent_def s'_def B_def book_ok_def)
  show ?thesis
    unfolding eq consistent_def using 1 2 3 4 by simp
qed

lemma consistent_User_return_book:
  assumes c: "consistent s"
    and ur: "ur < length (user_heap s)" and br: "br < length (book_heap s)"
  shows "consistent (snd (User_return_book ur br s))"
proof (cases "br \<in> set (borrowed_books (user_heap s ! ur))")
  case False
  then show ?thesis using c
    by (auto simp: User_return_book_def)
next
  case True
  have uok: "\<And>u. u < length (user_heap s) \<Longrightarrow> user_ok s u"
    using c by (simp add: consistent_def)
  have ib: "is_borrowed (book_heap s ! br)" and bo: "borrower (book_heap s ! br) = Some ur"
    using uok[OF ur] True by (auto simp: user_ok_def)
  define B where "B = (book_heap s ! br)\<lparr>is_borrowed := False, borrower := None\<rparr>"
  define U where
    "U = (user_heap s ! ur)\<lparr>borrowed_books := remove1 br (borrowed_books (user_heap s ! ur))\<rparr>"
  define s' where
    "s' = s\<lparr>book_heap := (book_heap s)[br := B], user_heap := (user_heap s)[ur := U]\<rparr>"
  have eq: "snd (User_return_book ur br s) = s'"
    using True ib
    by (simp add: User_return_book_def Book_return_book_def s'_def B_def U_def Let_def)
  have other: "\<And>u. u < length (user_heap s) \<Longrightarrow> u \<noteq> ur \<Longrightarrow>
      br \<notin> set (borrowed_books (user_heap s ! u))"
    using uok bo by (auto simp: user_ok_def)
  have 1: "\<forall>(k, b) \<in> set (books (lib s')).
      b < length (book_heap s') \<and> isbn (book_heap s' ! b) = k"
    using c br by (auto simp: consistent_def s'_def B_def nth_list_update)
  have 2: "\<forall>(k, u) \<in> set (users (lib s')). u < length (user_heap s')"
    using c by (auto simp: consistent_def s'_def)
  have 3: "user_ok s' u" if u: "u < length (user_heap s')" for u
  proof (cases "u = ur")
    case True
    have "length (remove1 br (borrowed_books (user_heap s ! ur)))
        \<le> length (borrowed_books (user_heap s ! ur))"
      by (simp add: length_remove1)
    then show ?thesis
      using True uok[OF ur] ur br
      by (auto simp: user_ok_def s'_def U_def B_def nth_list_update)
  next
    case False
    then show ?thesis
      using uok[of u] other[of u] u br
      by (auto simp: user_ok_def s'_def nth_list_update)
  qed
  have 4: "\<forall>b \<in> set (book_heap s'). book_ok b"
    using c set_update_subset_insert[of "book_heap s" br B]
    by (auto simp: consistent_def s'_def B_def book_ok_def)
  show ?thesis
    unfolding eq consistent_def using 1 2 3 4 by simp
qed

lemma consistent_borrow_book:
  assumes c: "consistent s"
  shows "consistent (snd (borrow_book cd i s))"
proof (cases "map_of (users (lib s)) cd")
  case None
  then show ?thesis using c by (simp add: borrow_book_def)
next
  case u: (Some ur)
  show ?thesis
  proof (cases "map_of (books (lib s)) i")
    case None
    then show ?thesis using c u by (simp add: borrow_book_def)
  next
    case b: (Some br)
    have "ur < length (user_heap s)" "br < length (book_heap s)"
      using c map_of_SomeD[OF u] map_of_SomeD[OF b] by (auto simp: consistent_def)
    with c have "consistent (snd (User_borrow_book ur br s))"
      by (rule consistent_User_borrow_book)
    then show ?thesis
      using u b
      by (auto simp: borrow_book_def consistent_def user_ok_def split: prod.splits bool.splits)
  qed
qed

lemma consistent_return_book:
  assumes c: "consistent s"
  shows "consistent (snd (return_book cd i s))"
proof (cases "map_of (users (lib s)) cd")
  case None
  then show ?thesis using c by (simp add: return_book_def)
next
  case u: (Some ur)
  show ?thesis
  proof (cases "map_of (books (lib s)) i")
    case None
    then show ?thesis using c u by (simp add: return_book_def)
  next
    case b: (Some br)
    have "ur < length (user_heap s)" "br < length (book_heap s)"
      using c map_of_SomeD[OF u] map_of_SomeD[OF b] by (auto simp: consistent_def)
    with c have "consistent (snd (User_return_book ur br s))"
      by (rule consistent_User_return_book)
    then show ?thesis
      using u b by (simp add: return_book_def)
  qed
qed

lemma consistent_exec: "consistent s \<Longrightarrow> consistent (exec x s)"
  by (cases x)
     (simp_all add: consistent_add_book consistent_remove_book consistent_register_user
        consistent_borrow_book consistent_return_book)

lemma consistent_run: "consistent s \<Longrightarrow> consistent (run xs s)"
  by (induction xs arbitrary: s) (simp_all add: consistent_exec)

lemma consistent_reachable: "consistent (run xs (fresh n))"
  by (rule consistent_run[OF consistent_fresh])

subsection \<open>What a call of \<open>borrow_book\<close> does\<close>

lemma borrow_book_success:
  assumes "borrow_book cd i s = (True, s1)"
  obtains ur br where
    "map_of (users (lib s)) cd = Some ur" "map_of (books (lib s)) i = Some br"
    "User_can_borrow_more (user_heap s ! ur)" "\<not> is_borrowed (book_heap s ! br)"
    "s1 = s\<lparr>book_heap :=
              (book_heap s)[br := (book_heap s ! br)\<lparr>is_borrowed := True, borrower := Some ur\<rparr>],
            user_heap :=
              (user_heap s)[ur := (user_heap s ! ur)
                \<lparr>borrowed_books := borrowed_books (user_heap s ! ur) @ [br]\<rparr>],
            lib := (lib s)\<lparr>borrow_records := borrow_records (lib s) @
                [\<lparr>user_name = name (user_heap s ! ur), user_card_id = cd,
                  book_title = title (book_heap s ! br), book_isbn = i,
                  borrow_time = placeholder_time\<rparr>]\<rparr>\<rparr>"
proof -
  from assms obtain ur where u: "map_of (users (lib s)) cd = Some ur"
    by (auto simp: borrow_book_def split: option.splits)
  from assms u obtain br where b: "map_of (books (lib s)) i = Some br"
    by (auto simp: borrow_book_def split: option.splits)
  from assms u b have can: "User_can_borrow_more (user_heap s ! ur)"
    by (auto simp: borrow_book_def User_borrow_book_def split: if_splits)
  from assms u b can have nb: "\<not> is_borrowed (book_heap s ! br)"
    by (auto simp: borrow_book_def User_borrow_book_def Book_borrow_def split: if_splits)
  have nm: "name ((user_heap s)[ur := (user_heap s ! ur)
      \<lparr>borrowed_books := borrowed_books (user_heap s ! ur) @ [br]\<rparr>] ! ur)
      = name (user_heap s ! ur)"
    by (cases "ur < length (user_heap s)") (simp_all add: list_update_beyond)
  have ti: "title ((book_heap s)[br := (book_heap s ! br)
      \<lparr>is_borrowed := True, borrower := Some ur\<rparr>] ! br) = title (book_heap s ! br)"
    by (cases "br < length (book_heap s)") (simp_all add: list_update_beyond)
  from assms u b can nb nm ti show thesis
    by (intro that[of ur br])
       (auto simp: borrow_book_def User_borrow_book_def Book_borrow_def Let_def)
qed

lemma borrow_book_failure: "borrow_book cd i s = (False, s1) \<Longrightarrow> s1 = s"
  by (auto simp: borrow_book_def User_borrow_book_def Book_borrow_def Let_def
      split: option.splits if_splits prod.splits bool.splits)

lemma borrow_book_records_success:
  assumes "borrow_book cd i s = (True, s1)"
  shows "\<exists>ur br. map_of (users (lib s)) cd = Some ur \<and> map_of (books (lib s)) i = Some br \<and>
           borrow_records (lib s1) = borrow_records (lib s) @
             [\<lparr>user_name = name (user_heap s ! ur), user_card_id = cd,
               book_title = title (book_heap s ! br), book_isbn = i,
               borrow_time = placeholder_time\<rparr>]"
proof -
  from assms obtain ur br where
    "map_of (users (lib s)) cd = Some ur" "map_of (books (lib s)) i = Some br"
    "s1 = s\<lparr>book_heap :=
              (book_heap s)[br := (book_heap s ! br)\<lparr>is_borrowed := True, borrower := Some ur\<rparr>],
            user_heap :=
              (user_heap s)[ur := (user_heap s ! ur)
                \<lparr>borrowed_books := borrowed_books (user_heap s ! ur) @ [br]\<rparr>],
            lib := (lib s)\<lparr>borrow_records := borrow_records (lib s) @
                [\<lparr>user_name = name (user_heap s ! ur), user_card_id = cd,
                  book_title = title (book_heap s ! br), book_isbn = i,
                  borrow_time = placeholder_time\<rparr>]\<rparr>\<rparr>"
    by (rule borrow_book_success)
  then show ?thesis by simp
qed

lemma return_book_records:
  "borrow_records (lib (snd (return_book cd i s))) = borrow_records (lib s)"
  by (simp add: return_book_def User_return_book_def Book_return_book_def Let_def
      split: option.splits)

lemma exec_records: "prefix (borrow_records (lib s)) (borrow_records (lib (exec x s)))"
proof (cases x)
  case (BorrowBook cd i)
  show ?thesis
  proof (cases "fst (borrow_book cd i s)")
    case True
    then have "borrow_book cd i s = (True, snd (borrow_book cd i s))"
      by (simp add: prod_eq_iff)
    from borrow_book_records_success[OF this] show ?thesis
      using BorrowBook by auto
  next
    case False
    then have "borrow_book cd i s = (False, snd (borrow_book cd i s))"
      by (simp add: prod_eq_iff)
    from borrow_book_failure[OF this] show ?thesis
      using BorrowBook by simp
  qed
next
  case (ReturnBook cd i)
  then show ?thesis by (simp add: return_book_records)
qed (simp_all add: add_book_def remove_book_def register_user_def split: option.splits)

lemma run_records: "prefix (borrow_records (lib s)) (borrow_records (lib (run xs s)))"
proof (induction xs arbitrary: s)
  case Nil
  show ?case by simp
next
  case (Cons x xs)
  have "prefix (borrow_records (lib s)) (borrow_records (lib (exec x s)))"
    by (rule exec_records)
  also have "prefix \<dots> (borrow_records (lib (run xs (exec x s))))"
    by (rule Cons.IH)
  finally show ?case by simp
qed

subsection \<open>The search loop\<close>


subsection \<open>The concrete runs, evaluated\<close>

lemmas model_defs =
  fresh_def Library_init_def Book_init_def User_init_def add_book_def remove_book_def
  register_user_def borrow_book_def return_book_def User_borrow_book_def User_return_book_def
  Book_borrow_def Book_return_book_def User_can_borrow_more_def Let_def


lemma run_demo_setup: "run demo_setup (fresh ''L'') = demo_start"
  by (simp add: demo_setup_def demo_start_def model_defs)

lemma borrow_demo_start: "borrow_book ''P1'' ''A1'' demo_start = (True, demo_lent)"
  by (simp add: demo_start_def demo_lent_def model_defs)

lemma run_demo_ops: "run demo_ops (fresh ''L'') = demo_lent"
  by (simp add: demo_ops_def demo_setup_def demo_lent_def model_defs)

lemma limit_users: "map_of (users (lib (run (take 13 limit_ops) (fresh ''L'')))) ''P1'' = Some 0"
  by (simp add: limit_ops_def model_defs)

lemma limit_held:
  "borrowed_books (user_heap (run (take 13 limit_ops) (fresh ''L'')) ! 0) = [0, 1, 2, 3, 4]"
  by (simp add: limit_ops_def model_defs)

text \<open>
  Outside the reachable states the fall-through of \<^verbatim>\<open>User.return_book\<close> is taken:
  the call returns Python's \<^verbatim>\<open>None\<close> and changes nothing.
\<close>

lemma return_book_None_when_stale:
  "return_book ''P1'' ''A1'' demo_stale = (None, demo_stale)"
  by (simp add: demo_stale_def demo_lent_def model_defs)

section \<open>The claims\<close>

text \<open>
  Claim C1. In every state that a sequence of operations reaches from a fresh library
  and in which \<open>borrow_book cd i\<close> succeeds, the call followed by \<open>return_book cd i\<close>
  succeeds as well and leaves the book under \<open>i\<close> available, without a borrower and
  absent from the borrowed books of the patron under \<open>cd\<close>; the two object stores are
  again what they were before the loan.
\<close>

theorem borrow_return_round_trip:
  assumes ok: "borrow_book cd i (run ops (fresh n)) = (True, s1)"
  shows "\<exists>ur br s2.
           map_of (users (lib s1)) cd = Some ur \<and> map_of (books (lib s1)) i = Some br \<and>
           return_book cd i s1 = (Some True, s2) \<and>
           map_of (users (lib s2)) cd = Some ur \<and> map_of (books (lib s2)) i = Some br \<and>
           Book_is_available (book_heap s2 ! br) \<and> borrower (book_heap s2 ! br) = None \<and>
           br \<notin> set (borrowed_books (user_heap s2 ! ur)) \<and>
           book_heap s2 = book_heap (run ops (fresh n)) \<and>
           user_heap s2 = user_heap (run ops (fresh n))"
proof -
  define s where "s = run ops (fresh n)"
  have c: "consistent s"
    unfolding s_def by (rule consistent_reachable)
  from ok[folded s_def] obtain ur br where
    u: "map_of (users (lib s)) cd = Some ur" and b: "map_of (books (lib s)) i = Some br" and
    nb: "\<not> is_borrowed (book_heap s ! br)" and
    s1: "s1 = s\<lparr>book_heap :=
              (book_heap s)[br := (book_heap s ! br)\<lparr>is_borrowed := True, borrower := Some ur\<rparr>],
            user_heap :=
              (user_heap s)[ur := (user_heap s ! ur)
                \<lparr>borrowed_books := borrowed_books (user_heap s ! ur) @ [br]\<rparr>],
            lib := (lib s)\<lparr>borrow_records := borrow_records (lib s) @
                [\<lparr>user_name = name (user_heap s ! ur), user_card_id = cd,
                  book_title = title (book_heap s ! br), book_isbn = i,
                  borrow_time = placeholder_time\<rparr>]\<rparr>\<rparr>"
    by (rule borrow_book_success)
  have ur: "ur < length (user_heap s)" and br: "br < length (book_heap s)"
    using c map_of_SomeD[OF u] map_of_SomeD[OF b] by (auto simp: consistent_def)
  have "user_ok s ur" using c ur by (simp add: consistent_def)
  then have notin: "br \<notin> set (borrowed_books (user_heap s ! ur))"
    using nb by (auto simp: user_ok_def)
  have "book_ok (book_heap s ! br)"
    using c br by (simp add: consistent_def)
  then have nobo: "borrower (book_heap s ! br) = None"
    using nb by (simp add: book_ok_def)
  have bk: "(book_heap s ! br)\<lparr>is_borrowed := False, borrower := None\<rparr> = book_heap s ! br"
    using nb nobo by simp
  have rm: "remove1 br (borrowed_books (user_heap s ! ur) @ [br])
      = borrowed_books (user_heap s ! ur)"
    using notin by (simp add: remove1_append)
  define s2 where "s2 = snd (return_book cd i s1)"
  have r: "return_book cd i s1 = (Some True, s2)"
    unfolding s2_def using u b ur br
    by (simp add: s1 return_book_def User_return_book_def Book_return_book_def Let_def)
  have s2: "book_heap s2 = book_heap s" "user_heap s2 = user_heap s" "lib s2 = lib s1"
    unfolding s2_def using u b ur br bk rm
    by (simp_all add: s1 return_book_def User_return_book_def Book_return_book_def Let_def)
  show ?thesis
    unfolding s_def[symmetric]
    using r s2 u b nb nobo notin
    by (intro exI[of _ ur] exI[of _ br] exI[of _ s2]) (simp add: s1 Book_is_available_def)
qed

theorem borrow_return_round_trip_witness:
  "borrow_book ''P1'' ''A1'' (run demo_setup (fresh ''L'')) = (True, demo_lent) \<and>
   fst (return_book ''P1'' ''A1'' demo_lent) = Some True \<and>
   Book_is_available (book_heap (snd (return_book ''P1'' ''A1'' demo_lent)) ! 0) \<and>
   borrower (book_heap (snd (return_book ''P1'' ''A1'' demo_lent)) ! 0) = None \<and>
   0 \<notin> set (borrowed_books (user_heap (snd (return_book ''P1'' ''A1'' demo_lent)) ! 0)) \<and>
   book_heap (snd (return_book ''P1'' ''A1'' demo_lent)) = book_heap demo_start"
proof -
  have h: "borrow_book ''P1'' ''A1'' (run demo_setup (fresh ''L'')) = (True, demo_lent)"
    by (simp add: run_demo_setup borrow_demo_start)
  from borrow_return_round_trip[OF h] obtain ur br s2 where
    u: "map_of (users (lib demo_lent)) ''P1'' = Some ur" and
    b: "map_of (books (lib demo_lent)) ''A1'' = Some br" and
    r: "return_book ''P1'' ''A1'' demo_lent = (Some True, s2)" and
    p: "Book_is_available (book_heap s2 ! br)" "borrower (book_heap s2 ! br) = None"
       "br \<notin> set (borrowed_books (user_heap s2 ! ur))"
       "book_heap s2 = book_heap (run demo_setup (fresh ''L''))"
    by blast
  from u have "ur = 0" by (simp add: demo_lent_def)
  moreover from b have "br = 0" by (simp add: demo_lent_def)
  ultimately show ?thesis
    using h r p by (simp add: run_demo_setup)
qed

text \<open>
  Claim C2. After every prefix of every sequence of operations on a fresh library,
  every registered user holds at most \<open>max_borrow_limit\<close> books, and that limit is 5.
\<close>

theorem borrow_limit_never_exceeded:
  assumes "map_of (users (lib (run (take k ops) (fresh n)))) cd = Some ur"
  shows "int (length (borrowed_books (user_heap (run (take k ops) (fresh n)) ! ur))) \<le>
           max_borrow_limit (user_heap (run (take k ops) (fresh n)) ! ur) \<and>
         max_borrow_limit (user_heap (run (take k ops) (fresh n)) ! ur) = 5"
proof -
  have c: "consistent (run (take k ops) (fresh n))"
    by (rule consistent_reachable)
  then have "ur < length (user_heap (run (take k ops) (fresh n)))"
    using map_of_SomeD[OF assms] by (auto simp: consistent_def)
  with c have "user_ok (run (take k ops) (fresh n)) ur"
    by (simp add: consistent_def)
  then show ?thesis by (simp add: user_ok_def)
qed

text \<open>
  The patron who tries to borrow six books holds five: the sixth call is refused.
\<close>

theorem borrow_limit_never_exceeded_witness:
  "map_of (users (lib (run (take 13 limit_ops) (fresh ''L'')))) ''P1'' = Some 0 \<and>
   length (borrowed_books (user_heap (run (take 13 limit_ops) (fresh ''L'')) ! 0)) = 5 \<and>
   int (length (borrowed_books (user_heap (run (take 13 limit_ops) (fresh ''L'')) ! 0))) \<le>
     max_borrow_limit (user_heap (run (take 13 limit_ops) (fresh ''L'')) ! 0) \<and>
   max_borrow_limit (user_heap (run (take 13 limit_ops) (fresh ''L'')) ! 0) = 5"
  using borrow_limit_never_exceeded[OF limit_users] limit_users
  by (simp add: limit_held)

text \<open>
  Claim C3. In every reachable state, every book of the catalog is flagged as borrowed
  exactly when its borrower is set, and \<open>Book_is_available\<close> is the negation of the
  flag. \<open>Book_borrow\<close> and \<open>Book_return_book\<close> keep flag and borrower together on any
  book on which they agree.
\<close>

theorem on_loan_iff_borrower_set:
  "(map_of (books (lib (run ops (fresh n)))) i = Some br \<longrightarrow>
      (is_borrowed (book_heap (run ops (fresh n)) ! br) \<longleftrightarrow>
         borrower (book_heap (run ops (fresh n)) ! br) \<noteq> None) \<and>
      Book_is_available (book_heap (run ops (fresh n)) ! br) =
        (\<not> is_borrowed (book_heap (run ops (fresh n)) ! br))) \<and>
   ((is_borrowed b \<longleftrightarrow> borrower b \<noteq> None) \<longrightarrow>
      (is_borrowed (snd (Book_borrow u b)) \<longleftrightarrow> borrower (snd (Book_borrow u b)) \<noteq> None) \<and>
      (is_borrowed (snd (Book_return_book b)) \<longleftrightarrow>
         borrower (snd (Book_return_book b)) \<noteq> None))"
proof -
  have c: "consistent (run ops (fresh n))"
    by (rule consistent_reachable)
  have "book_ok (book_heap (run ops (fresh n)) ! br)"
    if "map_of (books (lib (run ops (fresh n)))) i = Some br"
    using c map_of_SomeD[OF that] by (auto simp: consistent_def)
  then show ?thesis
    by (auto simp: book_ok_def Book_is_available_def Book_borrow_def Book_return_book_def)
qed

theorem on_loan_iff_borrower_set_witness:
  "map_of (books (lib (run demo_ops (fresh ''L'')))) ''A1'' = Some 0 \<and>
   is_borrowed (book_heap (run demo_ops (fresh ''L'')) ! 0) \<and>
   borrower (book_heap (run demo_ops (fresh ''L'')) ! 0) = Some 0 \<and>
   Book_is_available (book_heap (run demo_ops (fresh ''L'')) ! 0) = False \<and>
   is_borrowed (Book_init ''T'' ''A'' ''I'') = False \<and>
   borrower (Book_init ''T'' ''A'' ''I'') = None \<and>
   is_borrowed (snd (Book_borrow 1 (Book_init ''T'' ''A'' ''I''))) = True \<and>
   borrower (snd (Book_borrow 1 (Book_init ''T'' ''A'' ''I''))) = Some 1 \<and>
   is_borrowed (snd (Book_return_book (Book_init ''T'' ''A'' ''I''))) = False \<and>
   borrower (snd (Book_return_book (Book_init ''T'' ''A'' ''I''))) = None"
  using on_loan_iff_borrower_set[of demo_ops "''L''" "''A1''" 0 "Book_init ''T'' ''A'' ''I''" 1]
  by (simp add: run_demo_ops demo_lent_def Book_init_def Book_borrow_def Book_return_book_def
      Book_is_available_def)

text \<open>
  Claim C4. In every state, a \<open>borrow_book\<close> call by any card for a book that is on loan
  returns \<open>False\<close> and leaves the whole state as it is: the borrower of the book, the
  borrowed books of every user and the borrow records.
\<close>

theorem borrow_on_loan_fails_unchanged:
  assumes "map_of (books (lib s)) i = Some br" and "is_borrowed (book_heap s ! br)"
  shows "borrow_book cd i s = (False, s)"
  using assms
  by (simp add: borrow_book_def User_borrow_book_def Book_borrow_def split: option.splits)

theorem borrow_on_loan_fails_unchanged_witness:
  "map_of (books (lib demo_lent)) ''A1'' = Some 0 \<and>
   is_borrowed (book_heap demo_lent ! 0) \<and>
   borrow_book ''P2'' ''A1'' demo_lent = (False, demo_lent) \<and>
   length (borrow_records (lib demo_lent)) = 1"
proof -
  have h1: "map_of (books (lib demo_lent)) ''A1'' = Some 0"
    and h2: "is_borrowed (book_heap demo_lent ! 0)"
    and h3: "length (borrow_records (lib demo_lent)) = 1"
    by (simp_all add: demo_lent_def)
  from borrow_on_loan_fails_unchanged[OF h1 h2, of "''P2''"] h1 h2 h3
  show ?thesis by simp
qed

text \<open>
  Claim C5. In every state, when a registered patron does not hold an existing book,
  \<open>return_book\<close> for this patron and this book returns \<open>False\<close> and leaves the whole
  state, so the book and the patron, as it is.
\<close>

theorem return_not_held_fails_unchanged:
  assumes "map_of (users (lib s)) cd = Some ur" and "map_of (books (lib s)) i = Some br"
    and "br \<notin> set (borrowed_books (user_heap s ! ur))"
  shows "return_book cd i s = (Some False, s)"
  using assms by (simp add: return_book_def User_return_book_def)

theorem return_not_held_fails_unchanged_witness:
  "map_of (users (lib demo_lent)) ''P2'' = Some 1 \<and>
   map_of (books (lib demo_lent)) ''A1'' = Some 0 \<and>
   0 \<notin> set (borrowed_books (user_heap demo_lent ! 1)) \<and>
   return_book ''P2'' ''A1'' demo_lent = (Some False, demo_lent)"
proof -
  have h1: "map_of (users (lib demo_lent)) ''P2'' = Some 1"
    and h2: "map_of (books (lib demo_lent)) ''A1'' = Some 0"
    and h3: "0 \<notin> set (borrowed_books (user_heap demo_lent ! 1))"
    by (simp_all add: demo_lent_def)
  from return_not_held_fails_unchanged[OF h1 h2 h3] h1 h2 h3
  show ?thesis by simp
qed

text \<open>
  Claim C6. In every reachable state, \<open>return_book\<close> returns \<open>True\<close> or \<open>False\<close>, never
  Python's \<open>None\<close>: every book in the borrowed books of a user is flagged as borrowed,
  so \<open>Book_return_book\<close> cannot fail on it.
\<close>

theorem return_book_returns_bool:
  "fst (return_book cd i (run ops (fresh n))) \<in> {Some True, Some False} \<and>
   (\<forall>ur \<in> {..<length (user_heap (run ops (fresh n)))}.
      \<forall>br \<in> set (borrowed_books (user_heap (run ops (fresh n)) ! ur)).
        is_borrowed (book_heap (run ops (fresh n)) ! br))"
proof -
  define s where "s = run ops (fresh n)"
  have c: "consistent s"
    unfolding s_def by (rule consistent_reachable)
  have held: "is_borrowed (book_heap s ! br)"
    if "ur < length (user_heap s)" "br \<in> set (borrowed_books (user_heap s ! ur))" for ur br
    using c that by (auto simp: consistent_def user_ok_def)
  have "fst (return_book cd i s) \<in> {Some True, Some False}"
  proof (cases "map_of (users (lib s)) cd")
    case None
    then show ?thesis by (simp add: return_book_def)
  next
    case (Some ur)
    then have "ur < length (user_heap s)"
      using c map_of_SomeD[OF Some] by (auto simp: consistent_def)
    then show ?thesis
      using Some held[of ur]
      by (auto simp: return_book_def User_return_book_def Book_return_book_def Let_def
          split: option.splits)
  qed
  then show ?thesis
    unfolding s_def[symmetric] using held by simp
qed

theorem return_book_returns_bool_witness:
  "fst (return_book ''P1'' ''A1'' (run demo_ops (fresh ''L''))) = Some True \<and>
   (0::nat) \<in> {..<length (user_heap (run demo_ops (fresh ''L'')))} \<and>
   (0::nat) \<in> set (borrowed_books (user_heap (run demo_ops (fresh ''L'')) ! 0)) \<and>
   is_borrowed (book_heap (run demo_ops (fresh ''L'')) ! 0)"
proof -
  have m: "(0::nat) \<in> {..<length (user_heap (run demo_ops (fresh ''L'')))}"
      "(0::nat) \<in> set (borrowed_books (user_heap (run demo_ops (fresh ''L'')) ! 0))"
    by (simp_all add: run_demo_ops demo_lent_def)
  have r: "fst (return_book ''P1'' ''A1'' (run demo_ops (fresh ''L''))) \<noteq> Some False"
    unfolding run_demo_ops by (simp add: demo_lent_def model_defs)
  from return_book_returns_bool[of "''P1''" "''A1''" demo_ops "''L''"] m r
  show ?thesis by blast
qed


text \<open>
  Claim C7. A successful \<open>borrow_book\<close> appends exactly one record to \<open>borrow_records\<close>,
  made of the name of the patron, the card id, the title of the book, the ISBN and
  the placeholder time; a failed one appends nothing; \<open>return_book\<close> appends nothing;
  and no operation, so no sequence of operations, changes or removes a record that
  is there: the old log is a prefix of the new one.
\<close>

theorem borrow_records_append_only:
  "(borrow_book cd i s = (True, s1) \<longrightarrow>
      (\<exists>ur br. map_of (users (lib s)) cd = Some ur \<and> map_of (books (lib s)) i = Some br \<and>
         borrow_records (lib s1) = borrow_records (lib s) @
           [\<lparr>user_name = name (user_heap s ! ur), user_card_id = cd,
             book_title = title (book_heap s ! br), book_isbn = i,
             borrow_time = placeholder_time\<rparr>])) \<and>
   (borrow_book cd i s = (False, s1) \<longrightarrow> borrow_records (lib s1) = borrow_records (lib s)) \<and>
   borrow_records (lib (snd (return_book cd i s))) = borrow_records (lib s) \<and>
   prefix (borrow_records (lib s)) (borrow_records (lib (exec x s))) \<and>
   prefix (borrow_records (lib s)) (borrow_records (lib (run xs s)))"
  using borrow_book_records_success[of cd i s s1] borrow_book_failure[of cd i s s1]
    return_book_records[of cd i s] exec_records[of s x] run_records[of s xs]
  by blast

theorem borrow_records_append_only_witness:
  "borrow_book ''P1'' ''A1'' demo_start = (True, demo_lent) \<and>
   borrow_records (lib demo_start) = [] \<and>
   borrow_records (lib demo_lent) =
     [\<lparr>user_name = ''Ann'', user_card_id = ''P1'', book_title = ''The Art'',
       book_isbn = ''A1'', borrow_time = placeholder_time\<rparr>] \<and>
   borrow_book ''P2'' ''A1'' demo_lent = (False, demo_lent) \<and>
   borrow_records (lib (snd (return_book ''P1'' ''A1'' demo_lent))) =
     borrow_records (lib demo_lent) \<and>
   prefix (borrow_records (lib demo_lent))
     (borrow_records (lib (run [ReturnBook ''P1'' ''A1'', BorrowBook ''P2'' ''A1''] demo_lent)))"
proof -
  have h1: "borrow_book ''P1'' ''A1'' demo_start = (True, demo_lent)"
    by (rule borrow_demo_start)
  have h2: "borrow_book ''P2'' ''A1'' demo_lent = (False, demo_lent)"
    by (simp add: demo_lent_def model_defs)
  have e: "borrow_records (lib demo_start) = []"
    by (simp add: demo_start_def)
  from borrow_records_append_only[of "''P1''" "''A1''" demo_start demo_lent] h1
  obtain ur br where
    u: "map_of (users (lib demo_start)) ''P1'' = Some ur" and
    b: "map_of (books (lib demo_start)) ''A1'' = Some br" and
    r: "borrow_records (lib demo_lent) = borrow_records (lib demo_start) @
           [\<lparr>user_name = name (user_heap demo_start ! ur), user_card_id = ''P1'',
             book_title = title (book_heap demo_start ! br), book_isbn = ''A1'',
             borrow_time = placeholder_time\<rparr>]"
    by blast
  from u have "ur = 0" by (simp add: demo_start_def)
  moreover from b have "br = 0" by (simp add: demo_start_def)
  ultimately have r': "borrow_records (lib demo_lent) =
     [\<lparr>user_name = ''Ann'', user_card_id = ''P1'', book_title = ''The Art'',
       book_isbn = ''A1'', borrow_time = placeholder_time\<rparr>]"
    using r e by (simp add: demo_start_def)
  from borrow_records_append_only[of "''P1''" "''A1''" demo_lent demo_lent
      "ReturnBook ''P1'' ''A1''" "[ReturnBook ''P1'' ''A1'', BorrowBook ''P2'' ''A1'']"]
  have "borrow_records (lib (snd (return_book ''P1'' ''A1'' demo_lent))) =
          borrow_records (lib demo_lent)"
    and "prefix (borrow_records (lib demo_lent))
     (borrow_records (lib (run [ReturnBook ''P1'' ''A1'', BorrowBook ''P2'' ''A1''] demo_lent)))"
    by blast+
  with h1 h2 e r' show ?thesis by blast
qed

text \<open>
  Claim C8. \<open>check_book_availability\<close> has three outcomes: \<open>None\<close> exactly when the ISBN
  is not in the catalog, \<open>Some True\<close> when the book is in the catalog and not on loan,
  \<open>Some False\<close> when it is in the catalog and on loan. The outcome for an unknown
  book is therefore never the outcome for a book on loan.
\<close>

theorem check_book_availability_three_valued:
  "(map_of (books (lib s)) i = None \<longrightarrow> check_book_availability i s = None) \<and>
   (map_of (books (lib s)) i = Some br \<and> \<not> is_borrowed (book_heap s ! br) \<longrightarrow>
      check_book_availability i s = Some True) \<and>
   (map_of (books (lib s)) i = Some br \<and> is_borrowed (book_heap s ! br) \<longrightarrow>
      check_book_availability i s = Some False) \<and>
   (check_book_availability i s = None \<longleftrightarrow> map_of (books (lib s)) i = None) \<and>
   check_book_availability i s \<in> {None, Some True, Some False}"
  by (auto simp: check_book_availability_def Book_is_available_def split: option.splits)

theorem check_book_availability_three_valued_witness:
  "map_of (books (lib demo_lent)) ''A3'' = None \<and>
   check_book_availability ''A3'' demo_lent = None \<and>
   map_of (books (lib demo_lent)) ''A2'' = Some 1 \<and>
   is_borrowed (book_heap demo_lent ! 1) = False \<and>
   check_book_availability ''A2'' demo_lent = Some True \<and>
   map_of (books (lib demo_lent)) ''A1'' = Some 0 \<and>
   is_borrowed (book_heap demo_lent ! 0) = True \<and>
   check_book_availability ''A1'' demo_lent = Some False"
proof -
  have h: "map_of (books (lib demo_lent)) ''A3'' = None"
    "map_of (books (lib demo_lent)) ''A2'' = Some 1"
    "is_borrowed (book_heap demo_lent ! 1) = False"
    "map_of (books (lib demo_lent)) ''A1'' = Some 0"
    "is_borrowed (book_heap demo_lent ! 0) = True"
    by (simp_all add: demo_lent_def)
  from h check_book_availability_three_valued[of demo_lent "''A3''" 0]
    check_book_availability_three_valued[of demo_lent "''A2''" 1]
    check_book_availability_three_valued[of demo_lent "''A1''" 0]
  show ?thesis by simp
qed

text \<open>
  Claim C9. \<open>remove_book\<close> fails and changes nothing when the ISBN is not in the
  catalog; it fails and changes nothing when the book is on loan, so the book stays
  in the catalog and on loan; otherwise it succeeds and deletes the entry of this
  ISBN from the catalog, and the other entries keep their order.
\<close>

theorem remove_book_cases:
  "(map_of (books (lib s)) i = None \<longrightarrow> remove_book i s = (False, s)) \<and>
   (map_of (books (lib s)) i = Some br \<and> is_borrowed (book_heap s ! br) \<longrightarrow>
      remove_book i s = (False, s)) \<and>
   (map_of (books (lib s)) i = Some br \<and> \<not> is_borrowed (book_heap s ! br) \<longrightarrow>
      fst (remove_book i s) = True \<and>
      map_of (books (lib (snd (remove_book i s)))) i = None \<and>
      books (lib (snd (remove_book i s))) = filter (\<lambda>(k, b). k \<noteq> i) (books (lib s)) \<and>
      book_heap (snd (remove_book i s)) = book_heap s \<and>
      user_heap (snd (remove_book i s)) = user_heap s)"
proof -
  have "map_of (AList.delete i (books (lib s))) i = None"
    by (simp add: delete_conv')
  moreover have "AList.delete i (books (lib s)) = filter (\<lambda>(k, b). k \<noteq> i) (books (lib s))"
    by (auto simp: AList.delete_eq intro: filter_cong)
  ultimately show ?thesis
    by (auto simp: remove_book_def)
qed

theorem remove_book_cases_witness:
  "map_of (books (lib demo_lent)) ''A3'' = None \<and>
   remove_book ''A3'' demo_lent = (False, demo_lent) \<and>
   map_of (books (lib demo_lent)) ''A1'' = Some 0 \<and>
   is_borrowed (book_heap demo_lent ! 0) = True \<and>
   remove_book ''A1'' demo_lent = (False, demo_lent) \<and>
   map_of (books (lib demo_lent)) ''A2'' = Some 1 \<and>
   is_borrowed (book_heap demo_lent ! 1) = False \<and>
   fst (remove_book ''A2'' demo_lent) = True \<and>
   books (lib (snd (remove_book ''A2'' demo_lent))) = [(''A1'', 0)]"
proof -
  have h: "map_of (books (lib demo_lent)) ''A3'' = None"
    "map_of (books (lib demo_lent)) ''A2'' = Some 1"
    "is_borrowed (book_heap demo_lent ! 1) = False"
    "map_of (books (lib demo_lent)) ''A1'' = Some 0"
    "is_borrowed (book_heap demo_lent ! 0) = True"
    by (simp_all add: demo_lent_def)
  have f: "filter (\<lambda>(k, b). k \<noteq> ''A2'') (books (lib demo_lent)) = [(''A1'', 0)]"
    by (simp add: demo_lent_def)
  from h f remove_book_cases[of demo_lent "''A3''" 0]
    remove_book_cases[of demo_lent "''A1''" 0]
    remove_book_cases[of demo_lent "''A2''" 1]
  show ?thesis by simp
qed




end
